theory Spec2Isabelle
  imports Complex_Main "HOL-Library.Log_Nat"
begin

section \<open>Numbers\<close>

text \<open>
  The C code of src/physics.c computes with \<^verbatim>\<open>double\<close> and \<^verbatim>\<open>int\<close>. The
  embedding has two precisions.

  The values the code computes (headings, velocities, positions, the step) are computed
  in \<^typ>\<open>real\<close>, every operation exact: a theorem about them states the formula the
  code evaluates, which the code follows up to the rounding of each operation. A quotient
  whose divisor is zero has the value 0 in HOL where IEEE arithmetic gives an infinity
  or a NaN: what the theorems say of the velocity and the position after the force
  branch is about a mass other than 0.

  Where a result is discrete and rounding decides it, the operations are rounded as
  binary64 arithmetic rounds them, to the nearest double with ties to the even one,
  subnormal numbers included (\<open>round_double\<close>): the quotient that is truncated to the
  number of passes, and the question whether two sequences of operations end in the same
  double. A result beyond the largest double (an infinity in C) is not modelled.
\<close>

text \<open>Rounding to the nearest integer, ties to the even one.\<close>

definition round_even :: "real \<Rightarrow> int" where
  "round_even r =
     (let f = \<lfloor>r\<rfloor>; d = r - of_int f
      in if d < 1 / 2 then f else if 1 / 2 < d then f + 1 else if even f then f else f + 1)"

text \<open>
  Rounding to the nearest double. In units of the smallest subnormal number,
  \<open>2^-1074\<close>, a value whose integer part has \<open>b\<close> bits is rounded to a multiple of
  \<open>2^(b - 53)\<close>, and to a multiple of 1 when \<open>b \<le> 53\<close> (the subnormal numbers and the
  first binade of the normal ones): 53 significant bits.
\<close>

definition round_double :: "real \<Rightarrow> real" where
  "round_double r =
     (let u = r * 2 ^ 1074;
          k = nat (bitlen \<lfloor>\<bar>u\<bar>\<rfloor>) - 53
      in of_int (round_even (u / 2 ^ k)) * 2 ^ k / 2 ^ 1074)"



definition fdiv :: "real \<Rightarrow> real \<Rightarrow> real" where
  "fdiv a b = round_double (a / b)"


text \<open>
  The conversion \<^verbatim>\<open>(int)d\<close> of a double truncates toward zero. C defines it only if
  the truncated value fits an \<^verbatim>\<open>int\<close> (32 bits here): \<open>int_fits\<close> says when. The
  theorems about the number of passes are about calls where it does; the others hold
  whatever that number is.
\<close>

definition INT_MAX :: int where
  "INT_MAX = 2147483647"

definition INT_MIN :: int where
  "INT_MIN = - 2147483648"

definition int_of_double :: "real \<Rightarrow> int" where
  "int_of_double d = (if 0 \<le> d then \<lfloor>d\<rfloor> else \<lceil>d\<rceil>)"

definition int_fits :: "real \<Rightarrow> bool" where
  "int_fits d = (INT_MIN \<le> int_of_double d \<and> int_of_double d \<le> INT_MAX)"

text \<open>\<^verbatim>\<open>M_PI\<close> of math.h.\<close>

definition M_PI :: real where
  "M_PI = pi"

text \<open>
  \<^verbatim>\<open>atan2(b, a)\<close> of the C library on the reals: the angle in \<open>(-\<pi>, \<pi>]\<close> of the
  point with abscissa \<open>a\<close> and ordinate \<open>b\<close>.
\<close>

definition atan2 :: "real \<Rightarrow> real \<Rightarrow> real" where
  "atan2 b a =
     (if 0 < a then arctan (b / a)
      else if a < 0 \<and> 0 \<le> b then arctan (b / a) + pi
      else if a < 0 then arctan (b / a) - pi
      else if 0 < b then pi / 2
      else if b < 0 then - (pi / 2)
      else 0)"

section \<open>Vector2d\<close>

text \<open>
  The struct is declared in physics.h, which is not among the sources; its four fields
  are the ones the functions of physics.c assign. The field \<^verbatim>\<open>mod\<close> is named
  \<open>mod_v\<close> here.
\<close>

record Vector2d =
  x :: real
  y :: real
  mod_v :: real
  angle :: real

text \<open>
  Modelled from the spec: the accessor macros \<^verbatim>\<open>VX\<close> and \<^verbatim>\<open>VY\<close> of physics.h
  read the stored cartesian coordinates.
\<close>

definition VX :: "Vector2d \<Rightarrow> real" where
  "VX v = x v"

definition VY :: "Vector2d \<Rightarrow> real" where
  "VY v = y v"

text \<open>
  Modelled from the spec: the macros \<^verbatim>\<open>MOD\<close> and \<^verbatim>\<open>ANGLE\<close> of physics.h derive
  magnitude = sqrt(x^2 + y^2) and angle = atan2(y, x).
\<close>

definition MOD :: "real \<Rightarrow> real \<Rightarrow> real" where
  "MOD a b = sqrt (a * a + b * b)"

definition ANGLE :: "real \<Rightarrow> real \<Rightarrow> real" where
  "ANGLE a b = atan2 b a"

definition vect_cset :: "Vector2d \<Rightarrow> real \<Rightarrow> real \<Rightarrow> Vector2d" where
  "vect_cset v a b = v\<lparr>x := a, y := b, mod_v := MOD a b, angle := ANGLE a b\<rparr>"

definition vect_pset :: "Vector2d \<Rightarrow> real \<Rightarrow> real \<Rightarrow> Vector2d" where
  "vect_pset v m a =
     (let v = v\<lparr>mod_v := m\<rparr>;
          v = v\<lparr>angle := a\<rparr>;
          v = v\<lparr>x := mod_v v * cos (angle v)\<rparr>
      in v\<lparr>y := mod_v v * sin (angle v)\<rparr>)"

definition vectcpy :: "Vector2d \<Rightarrow> Vector2d \<Rightarrow> Vector2d" where
  "vectcpy dest src = dest\<lparr>x := x src, y := y src, mod_v := mod_v src, angle := angle src\<rparr>"

definition vectnull :: "Vector2d \<Rightarrow> Vector2d" where
  "vectnull v = v\<lparr>x := 0, y := 0, mod_v := 0, angle := 0\<rparr>"

text \<open>The representation-consistency invariant of the spec's data model.\<close>

definition vect_consistent :: "Vector2d \<Rightarrow> bool" where
  "vect_consistent v =
     (mod_v v = sqrt ((x v)\<^sup>2 + (y v)\<^sup>2) \<and> angle v = atan2 (y v) (x v))"

section \<open>Solid\<close>

text \<open>
  The value of the function pointer \<^verbatim>\<open>update\<close>: the integrator of this file, or
  anything else (storage that was never assigned).
\<close>

datatype update_fn = Rk4_update | Other_update nat

record Solid =
  mass :: real
  dir :: real
  dir_vel :: real
  vel :: Vector2d
  pos :: Vector2d
  force :: Vector2d
  update :: update_fn

section \<open>The integrator \<^verbatim>\<open>rk4_update\<close>\<close>

text \<open>The literal \<^verbatim>\<open>0.01\<close> is the double nearest to 0.01.\<close>

definition RK4_MIN_H :: real where
  "RK4_MIN_H = round_double 0.01"

text \<open>The local variables of \<^verbatim>\<open>rk4_update\<close> that live across the loop.\<close>

record rk4_locals =
  i :: int
  px :: real
  py :: real
  vx :: real
  vy :: real

text \<open>Lines 124 to 126: the heading.\<close>

definition rk4_dir :: "Solid \<Rightarrow> real \<Rightarrow> Solid" where
  "rk4_dir obj dt =
     (let obj = obj\<lparr>dir := dir obj + dir_vel obj / 360 * dt\<rparr>;
          obj = (if dir obj > 2 * M_PI then obj\<lparr>dir := dir obj - 2 * M_PI\<rparr> else obj)
      in (if dir obj < 0 then obj\<lparr>dir := dir obj + 2 * M_PI\<rparr> else obj))"

text \<open>
  Lines 128 and 129: the number of passes and the step. The quotient that is truncated
  is the double \<^verbatim>\<open>dt/RK4_MIN_H\<close>, the exact quotient rounded.
\<close>

definition rk4_N :: "real \<Rightarrow> int" where
  "rk4_N dt = (if dt > RK4_MIN_H then int_of_double (fdiv dt RK4_MIN_H) else 1)"

definition rk4_h :: "real \<Rightarrow> real" where
  "rk4_h dt = dt / real_of_int (rk4_N dt)"

text \<open>Lines 149 to 153: the increment of the x component, from the velocity \<open>v\<close>.\<close>

definition rk4_tx :: "real \<Rightarrow> real \<Rightarrow> real" where
  "rk4_tx v h =
     (let ix = v;
          tx = ix;
          tx = tx + (2 * ix + h * tx);
          tx = tx + (2 * ix + h * tx);
          tx = tx + (ix + h * tx)
      in tx * (h / 6))"

text \<open>Lines 159 to 163: the increment of the y component.\<close>

definition rk4_ty :: "real \<Rightarrow> real \<Rightarrow> real" where
  "rk4_ty v h =
     (let iy = v;
          ty = iy;
          ty = ty + 2 * (iy + h / 2 * ty);
          ty = ty + 2 * (iy + h / 2 * ty);
          ty = ty + (iy + h * ty)
      in ty * (h / 6))"



text \<open>Lines 148 to 166: the body of the loop.\<close>

definition rk4_body :: "real \<Rightarrow> real \<Rightarrow> real \<Rightarrow> rk4_locals \<Rightarrow> rk4_locals" where
  "rk4_body h ax ay s =
     (let s = s\<lparr>px := px s + rk4_tx (vx s) h\<rparr>;
          s = s\<lparr>vx := vx s + ax * h\<rparr>;
          s = s\<lparr>py := py s + rk4_ty (vy s) h\<rparr>
      in s\<lparr>vy := vy s + ay * h\<rparr>)"

text \<open>One pass: the body, then \<^verbatim>\<open>i++\<close>.\<close>

definition rk4_iter :: "real \<Rightarrow> real \<Rightarrow> real \<Rightarrow> rk4_locals \<Rightarrow> rk4_locals" where
  "rk4_iter h ax ay s = (let s = rk4_body h ax ay s in s\<lparr>i := i s + 1\<rparr>)"

text \<open>Line 146: \<^verbatim>\<open>for (i=0; i < N; i++)\<close>, entered with \<open>i s = 0\<close>.\<close>

function rk4_loop :: "int \<Rightarrow> real \<Rightarrow> real \<Rightarrow> real \<Rightarrow> rk4_locals \<Rightarrow> rk4_locals" where
  "rk4_loop N h ax ay s =
     (if i s < N then rk4_loop N h ax ay (rk4_iter h ax ay s) else s)"
  by pat_completeness auto
termination
  by (relation "measure (\<lambda>(N, h, ax, ay, s). nat (N - i s))") (auto simp: rk4_iter_def rk4_body_def Let_def)

declare rk4_loop.simps [simp del]

text \<open>The locals when the branches are reached (lines 131 to 135, and \<^verbatim>\<open>i=0\<close>).\<close>

definition rk4_start :: "Solid \<Rightarrow> rk4_locals" where
  "rk4_start obj =
     \<lparr>i = 0, px = VX (pos obj), py = VY (pos obj), vx = VX (vel obj), vy = VY (vel obj)\<rparr>"

text \<open>Lines 142 to 167: the locals after the loop of the force branch.\<close>

definition rk4_force :: "Solid \<Rightarrow> real \<Rightarrow> rk4_locals" where
  "rk4_force obj dt =
     (let ax = VX (force obj) / mass obj;
          ay = VY (force obj) / mass obj
      in rk4_loop (rk4_N dt) (rk4_h dt) ax ay (rk4_start obj))"

text \<open>Lines 171 and 172: the locals after the other branch.\<close>

definition rk4_free :: "Solid \<Rightarrow> real \<Rightarrow> rk4_locals" where
  "rk4_free obj dt =
     (let s = rk4_start obj;
          s = s\<lparr>px := px s + dt * vx s\<rparr>
      in s\<lparr>py := py s + dt * vy s\<rparr>)"

definition rk4_update :: "Solid \<Rightarrow> real \<Rightarrow> Solid" where
  "rk4_update obj dt =
     (let obj = rk4_dir obj dt
      in if mod_v (force obj) \<noteq> 0 then
           (let s = rk4_force obj dt;
                obj = obj\<lparr>vel := vect_cset (vel obj) (vx s) (vy s)\<rparr>
            in obj\<lparr>pos := vect_cset (pos obj) (px s) (py s)\<rparr>)
         else
           (let s = rk4_free obj dt
            in obj\<lparr>pos := vect_cset (pos obj) (px s) (py s)\<rparr>))"

section \<open>Solid lifecycle\<close>

datatype error = Assertion_failed

text \<open>
  \<^verbatim>\<open>solid_init\<close> assigns fields of the storage \<open>dest\<close>; a field it does not assign
  keeps what the storage held. A null pointer argument is \<open>None\<close>.
\<close>

definition solid_init :: "Solid \<Rightarrow> real \<Rightarrow> Vector2d option \<Rightarrow> Vector2d option \<Rightarrow> Solid" where
  "solid_init dest m v p =
     (let dest = dest\<lparr>mass := m\<rparr>;
          dest = dest\<lparr>force := (force dest)\<lparr>mod_v := 0\<rparr>\<rparr>;
          dest = dest\<lparr>dir := 0\<rparr>;
          dest = (case v of
                    None \<Rightarrow> dest\<lparr>vel := vectnull (vel dest)\<rparr>
                  | Some src \<Rightarrow> dest\<lparr>vel := vectcpy (vel dest) src\<rparr>);
          dest = (case p of
                    None \<Rightarrow> dest\<lparr>pos := vectnull (pos dest)\<rparr>
                  | Some src \<Rightarrow> dest\<lparr>pos := vectcpy (pos dest) src\<rparr>)
      in dest\<lparr>update := Rk4_update\<rparr>)"

text \<open>
  \<^verbatim>\<open>solid_create\<close>: the first argument is what the allocation returned, \<open>None\<close> for
  a null pointer, otherwise the storage with whatever it holds; the assertion aborts on
  a null pointer.
\<close>

definition solid_create ::
    "Solid option \<Rightarrow> real \<Rightarrow> Vector2d option \<Rightarrow> Vector2d option \<Rightarrow> error + Solid" where
  "solid_create dyn m v p =
     (case dyn of
        None \<Rightarrow> Inl Assertion_failed
      | Some dest \<Rightarrow> Inr (solid_init dest m v p))"

section \<open>Example data\<close>

definition vect_zero :: Vector2d where
  "vect_zero = \<lparr>x = 0, y = 0, mod_v = 0, angle = 0\<rparr>"

text \<open>A solid at rest at the origin, no force applied.\<close>

definition solid_rest :: Solid where
  "solid_rest =
     \<lparr>mass = 2, dir = 0, dir_vel = 0, vel = vect_zero, pos = vect_zero,
      force = vect_zero, update = Rk4_update\<rparr>"

text \<open>The example scenario of the spec: mass 2, at rest at the origin, force (4, 0).\<close>

definition solid_scenario :: Solid where
  "solid_scenario = solid_rest\<lparr>force := vect_cset vect_zero 4 0\<rparr>"

text \<open>No force, velocity (3, 4), position (1, 2).\<close>

definition solid_coasting :: Solid where
  "solid_coasting =
     solid_rest\<lparr>vel := vect_cset vect_zero 3 4, pos := vect_cset vect_zero 1 2\<rparr>"

text \<open>
  No force; the velocity was set through \<^verbatim>\<open>vect_pset\<close> with magnitude 1 and angle
  \<open>3\<pi>/2\<close>, a direction in the heading's range \<open>[0, 2\<pi>)\<close>.
\<close>

definition solid_polar :: Solid where
  "solid_polar = solid_rest\<lparr>vel := vect_pset vect_zero 1 (3 / 2 * pi)\<rparr>"

text \<open>Mass 1, at rest at the origin, force (20000, 0).\<close>

definition solid_kick :: Solid where
  "solid_kick = solid_rest\<lparr>mass := 1, force := vect_cset vect_zero 20000 0\<rparr>"

text \<open>Storage that was never assigned: every field holds some leftover value.\<close>

definition storage_raw :: Solid where
  "storage_raw =
     \<lparr>mass = 9, dir = 9, dir_vel = 7,
      vel = \<lparr>x = 9, y = 9, mod_v = 9, angle = 9\<rparr>,
      pos = \<lparr>x = 9, y = 9, mod_v = 9, angle = 9\<rparr>,
      force = \<lparr>x = 3, y = 4, mod_v = 9, angle = 1\<rparr>,
      update = Other_update 0\<rparr>"

text \<open>The double nearest to 0.03, a little below it.\<close>

definition dt_3 :: real where
  "dt_3 = 1080863910568919 / 2 ^ 55"



text \<open>
  The factor of the position increment of one pass: the increment is the velocity
  component times \<open>rk4_gain h\<close> (lemma \<open>rk4_iter_fields\<close>).
\<close>

definition rk4_gain :: "real \<Rightarrow> real" where
  "rk4_gain h = h * (6 + 9 * h + 5 * h\<^sup>2 + h ^ 3) / 6"

section \<open>The position increment of one pass\<close>

lemma i_rk4_iter: "i (rk4_iter h ax ay s) = i s + 1"
  by (simp add: rk4_iter_def rk4_body_def Let_def)

lemma rk4_tx_poly: "rk4_tx v h = v * h * (6 + 9 * h + 5 * h\<^sup>2 + h ^ 3) / 6"
  by (simp add: rk4_tx_def Let_def power2_eq_square power3_eq_cube algebra_simps)

lemma rk4_ty_poly: "rk4_ty v h = v * h * (6 + 9 * h + 5 * h\<^sup>2 + h ^ 3) / 6"
  by (simp add: rk4_ty_def Let_def power2_eq_square power3_eq_cube algebra_simps)

text \<open>
  C9. In the force branch the position increment of a pass is a function of the current
  velocity component and of the step \<open>h\<close> only: on each axis it is
  \<open>v * h * (6 + 9 h + 5 h^2 + h^3) / 6\<close>, whatever the acceleration is, and only the velocity
  is advanced by acceleration times \<open>h\<close>.
\<close>

theorem rk4_body_increment:
  "px (rk4_body h ax ay s) = px s + vx s * h * (6 + 9 * h + 5 * h\<^sup>2 + h ^ 3) / 6
   \<and> py (rk4_body h ax ay s) = py s + vy s * h * (6 + 9 * h + 5 * h\<^sup>2 + h ^ 3) / 6
   \<and> vx (rk4_body h ax ay s) = vx s + ax * h
   \<and> vy (rk4_body h ax ay s) = vy s + ay * h
   \<and> px (rk4_body h ax ay s) = px (rk4_body h bx bz s)
   \<and> py (rk4_body h ax ay s) = py (rk4_body h bx bz s)"
  by (simp add: rk4_body_def Let_def rk4_tx_poly rk4_ty_poly)

text \<open>In exact arithmetic the two blends are the same function.\<close>

lemma rk4_blends_exact: "rk4_tx v h = rk4_ty v h"
  by (simp add: rk4_tx_poly rk4_ty_poly)

section \<open>The loop\<close>

lemma rk4_loop_step:
  "i s < N \<Longrightarrow> rk4_loop N h ax ay s = rk4_loop N h ax ay (rk4_iter h ax ay s)"
  by (subst rk4_loop.simps) simp

lemma rk4_loop_done: "\<not> i s < N \<Longrightarrow> rk4_loop N h ax ay s = s"
  by (subst rk4_loop.simps) simp

text \<open>The loop makes \<open>N - i\<close> passes.\<close>

lemma rk4_loop_funpow:
  "rk4_loop N h ax ay s = ((rk4_iter h ax ay) ^^ nat (N - i s)) s"
proof (induction N h ax ay s rule: rk4_loop.induct)
  case (1 N h ax ay s)
  show ?case
  proof (cases "i s < N")
    case True
    then have "nat (N - i s) = Suc (nat (N - (i s + 1)))" by simp
    with True 1 show ?thesis
      by (simp add: rk4_loop_step i_rk4_iter funpow_swap1)
  next
    case False
    then show ?thesis by (simp add: rk4_loop_done)
  qed
qed

lemma rk4_iter_fields:
  "rk4_iter h ax ay s =
     \<lparr>i = i s + 1,
      px = px s + rk4_gain h * vx s,
      py = py s + rk4_gain h * vy s,
      vx = vx s + ax * h,
      vy = vy s + ay * h\<rparr>"
  by (simp add: rk4_iter_def rk4_body_def Let_def rk4_tx_poly rk4_ty_poly rk4_gain_def)

text \<open>The locals after \<open>k\<close> passes, in closed form.\<close>

lemma rk4_iter_funpow:
  "((rk4_iter h ax ay) ^^ k) s =
     \<lparr>i = i s + int k,
      px = px s + rk4_gain h * (real k * vx s + ax * h * (real k * (real k - 1) / 2)),
      py = py s + rk4_gain h * (real k * vy s + ay * h * (real k * (real k - 1) / 2)),
      vx = vx s + ax * h * real k,
      vy = vy s + ay * h * real k\<rparr>"
proof (induction k)
  case 0
  show ?case by simp
next
  case (Suc k)
  have "((rk4_iter h ax ay) ^^ Suc k) s = rk4_iter h ax ay (((rk4_iter h ax ay) ^^ k) s)"
    by simp
  also have "\<dots> = rk4_iter h ax ay
     \<lparr>i = i s + int k,
      px = px s + rk4_gain h * (real k * vx s + ax * h * (real k * (real k - 1) / 2)),
      py = py s + rk4_gain h * (real k * vy s + ay * h * (real k * (real k - 1) / 2)),
      vx = vx s + ax * h * real k,
      vy = vy s + ay * h * real k\<rparr>"
    by (simp only: Suc)
  also have "\<dots> =
     \<lparr>i = i s + int (Suc k),
      px = px s + rk4_gain h
             * (real (Suc k) * vx s + ax * h * (real (Suc k) * (real (Suc k) - 1) / 2)),
      py = py s + rk4_gain h
             * (real (Suc k) * vy s + ay * h * (real (Suc k) * (real (Suc k) - 1) / 2)),
      vx = vx s + ax * h * real (Suc k),
      vy = vy s + ay * h * real (Suc k)\<rparr>"
    by (simp add: rk4_iter_fields field_simps)
  finally show ?case .
qed

section \<open>Rounding\<close>

lemma round_even_bounds: "\<lfloor>r\<rfloor> \<le> round_even r \<and> round_even r \<le> \<lfloor>r\<rfloor> + 1"
  by (simp add: round_even_def Let_def)

lemma round_even_of_int [simp]: "round_even (of_int j) = j"
  by (simp add: round_even_def Let_def)

lemma round_even_mono: "a \<le> b \<Longrightarrow> round_even a \<le> round_even b"
proof -
  assume ab: "a \<le> b"
  have fl: "\<lfloor>a\<rfloor> \<le> \<lfloor>b\<rfloor>" using ab by (rule floor_mono)
  show ?thesis
  proof (cases "\<lfloor>a\<rfloor> = \<lfloor>b\<rfloor>")
    case True
    with ab show ?thesis by (auto simp: round_even_def Let_def)
  next
    case False
    with fl have "\<lfloor>a\<rfloor> + 1 \<le> \<lfloor>b\<rfloor>" by simp
    with round_even_bounds [of a] round_even_bounds [of b] show ?thesis by linarith
  qed
qed

lemma round_even_ge: "of_int j \<le> r \<Longrightarrow> j \<le> round_even r"
  using round_even_mono [of "of_int j" r] by simp

lemma round_even_le: "r \<le> of_int j \<Longrightarrow> round_even r \<le> j"
  using round_even_mono [of r "of_int j"] by simp

text \<open>The general evaluation rule.\<close>

lemma round_double_at:
  assumes "0 \<le> r" and "k = 0 \<or> 2 ^ (k + 52) \<le> r * 2 ^ 1074" and "r * 2 ^ 1074 < 2 ^ (k + 53)"
  shows "round_double r = of_int (round_even (r * 2 ^ 1074 / 2 ^ k)) * 2 ^ k / 2 ^ 1074"
proof -
  define u where "u = r * 2 ^ 1074"
  define n where "n = \<lfloor>\<bar>u\<bar>\<rfloor>"
  have u0: "0 \<le> u" unfolding u_def using assms(1) by (rule mult_nonneg_nonneg) simp
  then have n: "n = \<lfloor>u\<rfloor>" by (simp add: n_def)
  have "u < of_int (2 ^ (k + 53))" using assms(3) unfolding u_def by simp
  then have up: "n < 2 ^ (k + 53)" unfolding n by (simp only: floor_less_iff)
  have nn: "nat (int (k + 53)) = k + 53" by simp
  have le: "bitlen n \<le> int (k + 53)"
    unfolding bitlen_le_iff_power nn using up by simp
  have ge: "int (k + 53) \<le> bitlen n" if k: "k \<noteq> 0"
  proof -
    from k assms(2) have "of_int (2 ^ (k + 52)) \<le> u" unfolding u_def by simp
    then have "2 ^ (k + 52) \<le> n" unfolding n by (simp only: le_floor_iff)
    moreover have "nat (int (k + 53)) - 1 = k + 52" by simp
    ultimately show ?thesis unfolding bitlen_ge_iff_power by simp
  qed
  have "nat (bitlen n) - 53 = k"
  proof (cases "k = 0")
    case True
    with le show ?thesis by simp
  next
    case False
    with le ge [OF False] have "bitlen n = int (k + 53)" by simp
    then show ?thesis by simp
  qed
  then show ?thesis unfolding round_double_def Let_def n_def u_def by simp
qed


text \<open>Values in \<open>[2^j, 2^(j+1))\<close>, \<open>j \<le> 52\<close>.\<close>

lemma round_double_ge1:
  assumes "2 ^ j \<le> r" and "r < 2 ^ Suc j" and "j \<le> 52"
  shows "round_double r = of_int (round_even (r * 2 ^ (52 - j))) / 2 ^ (52 - j)"
proof -
  define P :: real where "P = 2 ^ 1074"
  define A :: real where "A = 2 ^ (52 - j)"
  define B :: real where "B = 2 ^ (j + 1022)"
  have pos: "0 < P" "0 < A" "0 < B" by (simp_all add: P_def A_def B_def del: power_numeral)
  have "52 - j + (j + 1022) = 1074" using assms(3) by simp
  then have s: "P = A * B"
    unfolding P_def A_def B_def by (simp only: flip: power_add)
  have r0: "0 \<le> r" using assms(1) by (rule order_trans [rotated]) simp
  have "j + 1022 + 52 = j + 1074" "j + 1022 + 53 = Suc j + 1074" by simp_all
  then have j2: "(2::real) ^ (j + 1022 + 52) = 2 ^ j * P" "(2::real) ^ (j + 1022 + 53) = 2 ^ Suc j * P"
    unfolding P_def by (simp_all only: power_add)
  have a: "(2::real) ^ (j + 1022 + 52) \<le> r * P"
    unfolding j2 using assms(1) pos by simp
  have b: "r * P < (2::real) ^ (j + 1022 + 53)"
    unfolding j2 using assms(2) pos by simp
  have "round_double r = of_int (round_even (r * P / B)) * B / P"
    using round_double_at [of r "j + 1022", OF r0] a b unfolding P_def B_def by blast
  also have "r * P / B = r * A" using pos by (simp add: s)
  also have "of_int (round_even (r * A)) * B / P = of_int (round_even (r * A)) / A"
    using pos by (simp add: s)
  finally show ?thesis unfolding A_def .
qed

text \<open>Values in \<open>[1/2^(j+1), 1/2^j)\<close>, \<open>j \<le> 1021\<close>.\<close>

lemma round_double_lt1:
  assumes "1 / 2 ^ Suc j \<le> r" and "r < 1 / 2 ^ j" and "j \<le> 1021"
  shows "round_double r = of_int (round_even (r * 2 ^ (j + 53))) / 2 ^ (j + 53)"
proof -
  define P :: real where "P = 2 ^ 1074"
  define A :: real where "A = 2 ^ (j + 53)"
  define B :: real where "B = 2 ^ (1021 - j)"
  define C :: real where "C = 2 ^ Suc j"
  define D :: real where "D = 2 ^ j"
  have pos: "0 < P" "0 < A" "0 < B" "0 < C" "0 < D"
    by (simp_all add: P_def A_def B_def C_def D_def del: power_numeral)
  have "j + 53 + (1021 - j) = 1074" using assms(3) by simp
  then have s: "P = A * B"
    unfolding P_def A_def B_def by (simp only: flip: power_add)
  have r0: "0 \<le> r" using assms(1) by (rule order_trans [rotated]) simp
  have "1021 - j + 52 + Suc j = 1074" "1021 - j + 53 + j = 1074" using assms(3) by simp_all
  then have j2: "(2::real) ^ (1021 - j + 52) * C = P" "(2::real) ^ (1021 - j + 53) * D = P"
    unfolding P_def C_def D_def by (simp_all only: flip: power_add)
  have a: "(2::real) ^ (1021 - j + 52) \<le> r * P"
  proof -
    have "1 \<le> r * C" using assms(1) pos unfolding C_def by (simp add: field_simps)
    then have "2 ^ (1021 - j + 52) * 1 \<le> (2::real) ^ (1021 - j + 52) * (r * C)"
      by (intro mult_left_mono) simp_all
    also have "\<dots> = r * (2 ^ (1021 - j + 52) * C)" by (simp only: mult_ac)
    also have "\<dots> = r * P" by (simp only: j2)
    finally show ?thesis by simp
  qed
  have b: "r * P < (2::real) ^ (1021 - j + 53)"
  proof -
    have "r * D < 1" using assms(2) pos unfolding D_def by (simp add: field_simps)
    then have "(2::real) ^ (1021 - j + 53) * (r * D) < 2 ^ (1021 - j + 53) * 1"
      by (intro mult_strict_left_mono) simp_all
    moreover have "(2::real) ^ (1021 - j + 53) * (r * D) = r * (2 ^ (1021 - j + 53) * D)"
      by (simp only: mult_ac)
    ultimately show ?thesis by (simp only: j2 mult_1_right)
  qed
  have "round_double r = of_int (round_even (r * P / B)) * B / P"
    using round_double_at [of r "1021 - j", OF r0] a b unfolding P_def B_def by blast
  also have "r * P / B = r * A" using pos by (simp add: s)
  also have "of_int (round_even (r * A)) * B / P = of_int (round_even (r * A)) / A"
    using pos by (simp add: s)
  finally show ?thesis unfolding A_def .
qed

text \<open>Rounding never crosses an integer (below \<open>2^53\<close>).\<close>

lemma round_double_int_bounds:
  assumes "0 \<le> r" and "r < 2 ^ 53"
  shows "of_int j \<le> r \<Longrightarrow> of_int j \<le> round_double r"
    and "r \<le> of_int j \<Longrightarrow> round_double r \<le> of_int j"
proof -
  define P :: real where "P = 2 ^ 1074"
  define u where "u = r * P"
  define n where "n = \<lfloor>\<bar>u\<bar>\<rfloor>"
  define k where "k = nat (bitlen n) - 53"
  have pos: "0 < P" by (simp add: P_def del: power_numeral)
  have u0: "0 \<le> u" unfolding u_def using assms(1) pos by simp
  then have n: "n = \<lfloor>u\<rfloor>" by (simp add: n_def)
  have "u < 2 ^ 53 * P" unfolding u_def using assms(2) pos by simp
  also have "\<dots> = 2 ^ (53 + 1074)" unfolding P_def by (simp only: power_add)
  finally have "u < of_int (2 ^ (53 + 1074))" by (simp del: power_numeral)
  then have "n < 2 ^ (53 + 1074)" unfolding n by (simp only: floor_less_iff)
  moreover have "nat (int (53 + 1074)) = 53 + 1074" by simp
  ultimately have "bitlen n \<le> int (53 + 1074)" by (simp only: bitlen_le_iff_power) simp
  then have k: "k \<le> 1074" unfolding k_def by simp
  define m where "m = 1074 - k"
  have "m + k = 1074" unfolding m_def using k by simp
  then have Pm: "P = 2 ^ m * 2 ^ k" unfolding P_def by (simp only: flip: power_add)
  have "round_double r = of_int (round_even (u / 2 ^ k)) * 2 ^ k / P"
    unfolding round_double_def Let_def u_def n_def k_def P_def ..
  also have "u / 2 ^ k = r * 2 ^ m" unfolding u_def Pm by simp
  also have "of_int (round_even (r * 2 ^ m)) * 2 ^ k / P = of_int (round_even (r * 2 ^ m)) / 2 ^ m"
    unfolding Pm by simp
  finally have rd: "round_double r = of_int (round_even (r * 2 ^ m)) / 2 ^ m" .
  {
    assume "of_int j \<le> r"
    then have "of_int (j * 2 ^ m) \<le> r * 2 ^ m" by simp
    then have "j * 2 ^ m \<le> round_even (r * 2 ^ m)" by (rule round_even_ge)
    then have "of_int (j * 2 ^ m) \<le> (of_int (round_even (r * 2 ^ m)) :: real)"
      by (simp only: of_int_le_iff)
    then show "of_int j \<le> round_double r" unfolding rd by (simp add: field_simps)
  }
  {
    assume "r \<le> of_int j"
    then have "r * 2 ^ m \<le> of_int (j * 2 ^ m)" by simp
    then have "round_even (r * 2 ^ m) \<le> j * 2 ^ m" by (rule round_even_le)
    then have "(of_int (round_even (r * 2 ^ m)) :: real) \<le> of_int (j * 2 ^ m)"
      by (simp only: of_int_le_iff)
    then show "round_double r \<le> of_int j" unfolding rd by (simp add: field_simps)
  }
qed

lemma round_double_nonneg: "0 \<le> r \<Longrightarrow> 0 \<le> round_double r"
proof -
  assume "0 \<le> r"
  then have "0 \<le> round_even (r * 2 ^ 1074 / 2 ^ (nat (bitlen \<lfloor>\<bar>r * 2 ^ 1074\<bar>\<rfloor>) - 53))"
    by (intro round_even_ge) simp
  then show ?thesis by (simp add: round_double_def Let_def)
qed

section \<open>The number of passes and the step\<close>

lemma RK4_MIN_H_alt: "RK4_MIN_H = 5764607523034235 / 2 ^ 59"
  unfolding RK4_MIN_H_def
  by (subst round_double_lt1 [where j = 6]) (simp_all add: round_even_def Let_def)

lemma RK4_MIN_H_pos: "0 < RK4_MIN_H"
  by (simp add: RK4_MIN_H_alt)

lemma rk4_N_nonneg: "0 \<le> rk4_N dt"
proof (cases "dt > RK4_MIN_H")
  case True
  with RK4_MIN_H_pos have "0 \<le> dt / RK4_MIN_H" by simp
  then have "0 \<le> fdiv dt RK4_MIN_H" unfolding fdiv_def by (rule round_double_nonneg)
  with True show ?thesis by (simp add: rk4_N_def int_of_double_def)
next
  case False
  then show ?thesis by (simp add: rk4_N_def)
qed

text \<open>The hypotheses: dt is not negative and the quotient is within the range of int.\<close>

lemma rk4_quotient_range:
  assumes "0 \<le> dt" and "dt / RK4_MIN_H \<le> real_of_int INT_MAX"
  shows "0 \<le> dt / RK4_MIN_H" and "dt / RK4_MIN_H < 2 ^ 53"
proof -
  show "0 \<le> dt / RK4_MIN_H" using assms(1) RK4_MIN_H_pos by simp
  have "real_of_int INT_MAX < 2 ^ 53" by (simp add: INT_MAX_def)
  with assms(2) show "dt / RK4_MIN_H < 2 ^ 53" by linarith
qed

lemma rk4_N_floor:
  assumes "0 \<le> dt" and "dt / RK4_MIN_H \<le> real_of_int INT_MAX"
  shows "rk4_N dt = max 1 \<lfloor>fdiv dt RK4_MIN_H\<rfloor>"
proof -
  note q = rk4_quotient_range [OF assms]
  show ?thesis
  proof (cases "dt > RK4_MIN_H")
    case True
    then have "of_int 1 \<le> dt / RK4_MIN_H" using RK4_MIN_H_pos by simp
    then have "of_int 1 \<le> fdiv dt RK4_MIN_H"
      unfolding fdiv_def by (rule round_double_int_bounds(1) [OF q])
    then have "1 \<le> \<lfloor>fdiv dt RK4_MIN_H\<rfloor>" "0 \<le> fdiv dt RK4_MIN_H" by simp_all
    with True show ?thesis by (simp add: rk4_N_def int_of_double_def)
  next
    case False
    then have "dt / RK4_MIN_H \<le> of_int 1" using RK4_MIN_H_pos by simp
    then have "fdiv dt RK4_MIN_H \<le> of_int 1"
      unfolding fdiv_def by (rule round_double_int_bounds(2) [OF q])
    then have "\<lfloor>fdiv dt RK4_MIN_H\<rfloor> \<le> 1" by (simp add: floor_le_iff)
    with False show ?thesis by (simp add: rk4_N_def)
  qed
qed

text \<open>The rounded quotient lies between the floor and the ceiling of the exact one.\<close>

lemma rk4_quotient_bounds:
  assumes "0 \<le> dt" and "dt / RK4_MIN_H \<le> real_of_int INT_MAX"
  shows "of_int \<lfloor>dt / RK4_MIN_H\<rfloor> \<le> fdiv dt RK4_MIN_H"
    and "fdiv dt RK4_MIN_H \<le> of_int \<lceil>dt / RK4_MIN_H\<rceil>"
    and "fdiv dt RK4_MIN_H \<le> of_int INT_MAX"
    and "0 \<le> fdiv dt RK4_MIN_H"
proof -
  note q = rk4_quotient_range [OF assms]
  show "of_int \<lfloor>dt / RK4_MIN_H\<rfloor> \<le> fdiv dt RK4_MIN_H"
    unfolding fdiv_def by (rule round_double_int_bounds(1) [OF q]) simp
  show "fdiv dt RK4_MIN_H \<le> of_int \<lceil>dt / RK4_MIN_H\<rceil>"
    unfolding fdiv_def by (rule round_double_int_bounds(2) [OF q]) simp
  show "fdiv dt RK4_MIN_H \<le> of_int INT_MAX"
    unfolding fdiv_def by (rule round_double_int_bounds(2) [OF q]) (rule assms(2))
  show "0 \<le> fdiv dt RK4_MIN_H"
    unfolding fdiv_def by (rule round_double_nonneg) (rule q(1))
qed

lemma rk4_N_bounds:
  assumes "0 \<le> dt" and "dt / RK4_MIN_H \<le> real_of_int INT_MAX"
  shows "1 \<le> rk4_N dt"
    and "\<lfloor>dt / RK4_MIN_H\<rfloor> \<le> rk4_N dt"
    and "rk4_N dt \<le> max 1 \<lceil>dt / RK4_MIN_H\<rceil>"
    and "real_of_int (rk4_N dt) \<le> max 1 (fdiv dt RK4_MIN_H)"
    and "rk4_N dt \<le> INT_MAX"
    and "int_fits (fdiv dt RK4_MIN_H)"
proof -
  note N = rk4_N_floor [OF assms]
  note b = rk4_quotient_bounds [OF assms]
  show "1 \<le> rk4_N dt" unfolding N by simp
  have "\<lfloor>dt / RK4_MIN_H\<rfloor> \<le> \<lfloor>fdiv dt RK4_MIN_H\<rfloor>"
    using b(1) by (simp add: le_floor_iff)
  then show "\<lfloor>dt / RK4_MIN_H\<rfloor> \<le> rk4_N dt" unfolding N by simp
  have "\<lfloor>fdiv dt RK4_MIN_H\<rfloor> \<le> \<lceil>dt / RK4_MIN_H\<rceil>"
    using b(2) by (simp add: floor_le_iff)
  then show "rk4_N dt \<le> max 1 \<lceil>dt / RK4_MIN_H\<rceil>" unfolding N by simp
  have "real_of_int \<lfloor>fdiv dt RK4_MIN_H\<rfloor> \<le> fdiv dt RK4_MIN_H" by simp
  then show "real_of_int (rk4_N dt) \<le> max 1 (fdiv dt RK4_MIN_H)"
    unfolding N by (simp add: max_def)
  have fl: "\<lfloor>fdiv dt RK4_MIN_H\<rfloor> \<le> INT_MAX"
    using b(3) by (simp add: floor_le_iff)
  then show "rk4_N dt \<le> INT_MAX" unfolding N by (simp add: INT_MAX_def)
  show "int_fits (fdiv dt RK4_MIN_H)"
    using b(4) fl by (simp add: int_fits_def int_of_double_def INT_MIN_def)
qed

section \<open>What \<^verbatim>\<open>rk4_update\<close> leaves and what it commits\<close>

lemma rk4_dir_frame:
  "force (rk4_dir obj dt) = force obj \<and> vel (rk4_dir obj dt) = vel obj
   \<and> pos (rk4_dir obj dt) = pos obj \<and> mass (rk4_dir obj dt) = mass obj"
  by (simp add: rk4_dir_def Let_def)

lemma rk4_force_rk4_dir: "rk4_force (rk4_dir obj dt') dt = rk4_force obj dt"
  by (simp add: rk4_force_def rk4_start_def rk4_dir_frame)

lemma rk4_update_force:
  "mod_v (force obj) \<noteq> 0 \<Longrightarrow>
     vel (rk4_update obj dt) = vect_cset (vel obj) (vx (rk4_force obj dt)) (vy (rk4_force obj dt))
   \<and> pos (rk4_update obj dt) = vect_cset (pos obj) (px (rk4_force obj dt)) (py (rk4_force obj dt))"
  by (simp add: rk4_update_def Let_def rk4_dir_frame rk4_force_rk4_dir)

lemma rk4_update_free:
  "mod_v (force obj) = 0 \<Longrightarrow>
     vel (rk4_update obj dt) = vel obj
   \<and> pos (rk4_update obj dt) =
       vect_cset (pos obj) (x (pos obj) + dt * x (vel obj)) (y (pos obj) + dt * y (vel obj))"
  by (simp add: rk4_update_def Let_def rk4_dir_frame rk4_free_def rk4_start_def VX_def VY_def)

lemma dir_rk4_update: "dir (rk4_update obj dt) = dir (rk4_dir obj dt)"
  by (simp add: rk4_update_def Let_def)

lemma dir_rk4_dir:
  "dir (rk4_dir obj dt) =
     (let d = dir obj + dir_vel obj / 360 * dt;
          d = (if d > 2 * M_PI then d - 2 * M_PI else d)
      in if d < 0 then d + 2 * M_PI else d)"
  by (simp add: rk4_dir_def Let_def)

text \<open>The locals after the loop of the force branch, in closed form.\<close>

lemma rk4_force_closed:
  "rk4_force obj dt =
     \<lparr>i = rk4_N dt,
      px = x (pos obj) + rk4_gain (rk4_h dt)
             * (real_of_int (rk4_N dt) * x (vel obj)
                + x (force obj) / mass obj * rk4_h dt
                  * (real_of_int (rk4_N dt) * (real_of_int (rk4_N dt) - 1) / 2)),
      py = y (pos obj) + rk4_gain (rk4_h dt)
             * (real_of_int (rk4_N dt) * y (vel obj)
                + y (force obj) / mass obj * rk4_h dt
                  * (real_of_int (rk4_N dt) * (real_of_int (rk4_N dt) - 1) / 2)),
      vx = x (vel obj) + x (force obj) / mass obj * rk4_h dt * real_of_int (rk4_N dt),
      vy = y (vel obj) + y (force obj) / mass obj * rk4_h dt * real_of_int (rk4_N dt)\<rparr>"
proof -
  have N: "0 \<le> rk4_N dt" by (rule rk4_N_nonneg)
  then have r: "real (nat (rk4_N dt)) = real_of_int (rk4_N dt)" by simp
  show ?thesis
    using N
    by (simp add: rk4_force_def Let_def rk4_loop_funpow rk4_iter_funpow r)
       (simp add: rk4_start_def VX_def VY_def)
qed

lemma force_solid_scenario: "mod_v (force solid_scenario) \<noteq> 0"
  by (simp add: solid_scenario_def vect_cset_def MOD_def)

lemma force_solid_coasting: "mod_v (force solid_coasting) = 0"
  by (simp add: solid_coasting_def solid_rest_def vect_zero_def)

lemma quotient_100: "(0::real) \<le> 1 \<and> 1 / RK4_MIN_H \<le> real_of_int INT_MAX"
  by (simp add: RK4_MIN_H_alt INT_MAX_def)

lemma fdiv_1: "fdiv 1 RK4_MIN_H = 100"
  unfolding fdiv_def RK4_MIN_H_alt
  by (subst round_double_ge1 [where j = 6]) (simp_all add: round_even_def Let_def)

lemma rk4_N_1: "rk4_N 1 = 100 \<and> rk4_h 1 = 1 / 100"
proof -
  have "1 > RK4_MIN_H" by (simp add: RK4_MIN_H_alt)
  then have "rk4_N 1 = 100" by (simp add: rk4_N_def fdiv_1 int_of_double_def)
  then show ?thesis by (simp add: rk4_h_def)
qed

text \<open>
  At the double 0.03 the exact quotient is below 3 and the double quotient is 3: three
  passes.
\<close>

lemma rk4_N_dt_3:
  "round_double dt_3 = dt_3 \<and> fdiv dt_3 RK4_MIN_H = 3 \<and> rk4_N dt_3 = 3
   \<and> \<lfloor>dt_3 / RK4_MIN_H\<rfloor> = 2 \<and> \<lceil>dt_3 / RK4_MIN_H\<rceil> = 3"
proof -
  have q: "fdiv dt_3 RK4_MIN_H = 3"
    unfolding fdiv_def RK4_MIN_H_alt dt_3_def
    by (subst round_double_ge1 [where j = 1]) (simp_all add: round_even_def Let_def)
  have "dt_3 > RK4_MIN_H" by (simp add: RK4_MIN_H_alt dt_3_def)
  then have "rk4_N dt_3 = 3" by (simp add: rk4_N_def q int_of_double_def)
  moreover have "\<lfloor>dt_3 / RK4_MIN_H\<rfloor> = 2" "\<lceil>dt_3 / RK4_MIN_H\<rceil> = 3"
    by (simp_all add: RK4_MIN_H_alt dt_3_def)
  moreover have "round_double dt_3 = dt_3"
    unfolding dt_3_def
    by (subst round_double_lt1 [where j = 5]) (simp_all add: round_even_def Let_def)
  ultimately show ?thesis using q by simp
qed

lemma quotient_dt_3: "0 \<le> dt_3 \<and> dt_3 / RK4_MIN_H \<le> real_of_int INT_MAX"
  by (simp add: RK4_MIN_H_alt INT_MAX_def dt_3_def)

lemma rk4_N_small: "dt \<le> 1 / 100 \<Longrightarrow> rk4_N dt = 1 \<and> rk4_h dt = dt"
proof -
  assume "dt \<le> 1 / 100"
  moreover have "1 / 100 < RK4_MIN_H" by (simp add: RK4_MIN_H_alt)
  ultimately have "rk4_N dt = 1" by (simp add: rk4_N_def)
  then show ?thesis by (simp add: rk4_h_def)
qed

section \<open>The branch without force\<close>

text \<open>
  C2. For a Solid whose force has magnitude 0, after the update the position is
  position0 + velocity0 * dt on both axes and the velocity is unchanged in all four of
  its fields (for every dt, so for every dt \<open>\<ge>\<close> 0).
\<close>

theorem rk4_update_no_force:
  "mod_v (force obj) = 0 \<Longrightarrow>
     x (pos (rk4_update obj dt)) = x (pos obj) + x (vel obj) * dt
   \<and> y (pos (rk4_update obj dt)) = y (pos obj) + y (vel obj) * dt
   \<and> vel (rk4_update obj dt) = vel obj"
  by (simp add: rk4_update_free vect_cset_def)

theorem rk4_update_no_force_witness:
  "mod_v (force solid_coasting) = 0
   \<and> x (pos (rk4_update solid_coasting 2)) = 7
   \<and> y (pos (rk4_update solid_coasting 2)) = 10
   \<and> vel (rk4_update solid_coasting 2) = vel solid_coasting"
proof -
  have "x (pos solid_coasting) = 1" "y (pos solid_coasting) = 2"
       "x (vel solid_coasting) = 3" "y (vel solid_coasting) = 4"
    by (simp_all add: solid_coasting_def vect_cset_def)
  with force_solid_coasting rk4_update_no_force [OF force_solid_coasting, of 2]
  show ?thesis by simp
qed

section \<open>The heading\<close>

text \<open>
  C3, as amended. The heading is wrapped once, and only when it is strictly beyond
  \<open>2\<pi>\<close>. So: if the heading lies in \<open>[0, 2\<pi>)\<close> before the call and the change
  \<open>dir_vel / 360 * dt\<close> is at most \<open>2\<pi>\<close> in absolute value, the heading lies in the
  closed range \<open>[0, 2\<pi>]\<close> afterwards, and it is the old heading plus the change, or
  that sum plus \<open>2\<pi>\<close>, or that sum minus \<open>2\<pi>\<close>.
\<close>

theorem rk4_update_heading:
  assumes "0 \<le> dir obj" and "dir obj < 2 * M_PI"
    and "\<bar>dir_vel obj / 360 * dt\<bar> \<le> 2 * M_PI"
  shows "0 \<le> dir (rk4_update obj dt) \<and> dir (rk4_update obj dt) \<le> 2 * M_PI
    \<and> (dir (rk4_update obj dt) = dir obj + dir_vel obj / 360 * dt
       \<or> dir (rk4_update obj dt) = dir obj + dir_vel obj / 360 * dt + 2 * M_PI
       \<or> dir (rk4_update obj dt) = dir obj + dir_vel obj / 360 * dt - 2 * M_PI)"
proof -
  have "0 < M_PI" by (simp add: M_PI_def)
  with assms show ?thesis
    by (auto simp: dir_rk4_update dir_rk4_dir Let_def abs_le_iff)
qed

text \<open>
  A heading of 0.1 with angular velocity -360 over dt = 1 wraps to \<open>2\<pi> - 0.9\<close>, just
  under \<open>2\<pi>\<close>; a heading of \<open>2\<pi> - 0.1\<close> with angular velocity 360 wraps to 0.9,
  just above 0.
\<close>

theorem rk4_update_heading_witness:
  "0 \<le> dir (solid_rest\<lparr>dir := 1 / 10, dir_vel := - 360\<rparr>)
   \<and> dir (solid_rest\<lparr>dir := 1 / 10, dir_vel := - 360\<rparr>) < 2 * M_PI
   \<and> dir (rk4_update (solid_rest\<lparr>dir := 1 / 10, dir_vel := - 360\<rparr>) 1) = 2 * M_PI - 9 / 10
   \<and> dir (rk4_update (solid_rest\<lparr>dir := 1 / 10, dir_vel := - 360\<rparr>) 1) \<le> 2 * M_PI
   \<and> 0 \<le> dir (rk4_update (solid_rest\<lparr>dir := 1 / 10, dir_vel := - 360\<rparr>) 1)
   \<and> dir (rk4_update (solid_rest\<lparr>dir := 2 * M_PI - 1 / 10, dir_vel := 360\<rparr>) 1) = 9 / 10"
proof -
  have p: "2 \<le> M_PI" unfolding M_PI_def by (rule pi_ge_two)
  define d1 where "d1 = dir (rk4_update (solid_rest\<lparr>dir := 1 / 10, dir_vel := - 360\<rparr>) 1)"
  define d2 where
    "d2 = dir (rk4_update (solid_rest\<lparr>dir := 2 * M_PI - 1 / 10, dir_vel := 360\<rparr>) 1)"
  have 1: "d1 = 2 * M_PI - 9 / 10"
    using rk4_update_heading [of "solid_rest\<lparr>dir := 1 / 10, dir_vel := - 360\<rparr>" 1] p
    unfolding d1_def by auto
  have 2: "d2 = 9 / 10"
    using rk4_update_heading [of "solid_rest\<lparr>dir := 2 * M_PI - 1 / 10, dir_vel := 360\<rparr>" 1] p
    unfolding d2_def by auto
  from 1 2 p show ?thesis unfolding d1_def d2_def by simp
qed

text \<open>
  The claim as stated fails: from heading 0, angular velocity 36000 over dt = 1 leaves
  the heading at \<open>100 - 2\<pi>\<close>, beyond \<open>2\<pi>\<close>; and angular velocity 360 over
  dt = \<open>2\<pi>\<close> leaves it at \<open>2\<pi>\<close> itself.
\<close>

theorem rk4_update_heading_counterexample:
  "0 \<le> dir solid_rest \<and> dir solid_rest < 2 * M_PI \<and> (0::real) \<le> 1
   \<and> \<not> dir (rk4_update (solid_rest\<lparr>dir_vel := 36000\<rparr>) 1) < 2 * M_PI
   \<and> dir (rk4_update (solid_rest\<lparr>dir_vel := 360\<rparr>) (2 * M_PI)) = 2 * M_PI"
proof -
  have p: "2 \<le> pi" "pi < 4" by (rule pi_ge_two) (rule pi_less_4)
  then show ?thesis
    by (simp add: dir_rk4_update dir_rk4_dir Let_def M_PI_def solid_rest_def)
qed

section \<open>Substeps\<close>

text \<open>
  C4, as amended. The conversion to \<^verbatim>\<open>int\<close> truncates, so the count is a floor, not a
  ceiling, and what is truncated is the double quotient: for every dt \<open>\<ge>\<close> 0 whose
  quotient dt / 0.01 is within the range of \<^verbatim>\<open>int\<close>, the update with a force of non-zero
  magnitude makes exactly N = max(1, floor(q)) passes of the loop body, where q is the
  quotient dt / 0.01 rounded to a double, with the step h = dt / N; the velocity and the
  position it commits are those of the locals after these passes. N lies between
  floor(dt / 0.01) and max(1, ceil(dt / 0.01)), with 0.01 the double of that name; it
  can exceed the floor of the exact quotient (three passes at the double 0.03, lemma
  \<open>rk4_N_dt_3\<close>).
\<close>

theorem rk4_update_substeps:
  assumes "0 \<le> dt" and "dt / RK4_MIN_H \<le> real_of_int INT_MAX"
    and "mod_v (force obj) \<noteq> 0"
  shows "rk4_N dt = max 1 \<lfloor>fdiv dt RK4_MIN_H\<rfloor>
    \<and> \<lfloor>dt / RK4_MIN_H\<rfloor> \<le> rk4_N dt
    \<and> rk4_N dt \<le> max 1 \<lceil>dt / RK4_MIN_H\<rceil>
    \<and> int_fits (fdiv dt RK4_MIN_H)
    \<and> rk4_h dt = dt / real_of_int (rk4_N dt)
    \<and> rk4_force obj dt =
        ((rk4_iter (rk4_h dt) (VX (force obj) / mass obj) (VY (force obj) / mass obj))
           ^^ nat (rk4_N dt)) (rk4_start obj)
    \<and> vel (rk4_update obj dt) =
        vect_cset (vel obj) (vx (rk4_force obj dt)) (vy (rk4_force obj dt))
    \<and> pos (rk4_update obj dt) =
        vect_cset (pos obj) (px (rk4_force obj dt)) (py (rk4_force obj dt))"
proof -
  have "rk4_force obj dt =
        ((rk4_iter (rk4_h dt) (VX (force obj) / mass obj) (VY (force obj) / mass obj))
           ^^ nat (rk4_N dt)) (rk4_start obj)"
    by (simp add: rk4_force_def Let_def rk4_loop_funpow rk4_start_def)
  moreover have "rk4_h dt = dt / real_of_int (rk4_N dt)"
    by (simp add: rk4_h_def)
  moreover note rk4_N_floor [OF assms(1,2)] rk4_N_bounds(2,3,6) [OF assms(1,2)]
    rk4_update_force [OF assms(3), of dt]
  ultimately show ?thesis by blast
qed

theorem rk4_update_substeps_witness:
  "(0::real) \<le> 1 \<and> 1 / RK4_MIN_H \<le> real_of_int INT_MAX
   \<and> mod_v (force solid_scenario) \<noteq> 0
   \<and> fdiv 1 RK4_MIN_H = 100
   \<and> rk4_N 1 = 100 \<and> rk4_h 1 = 1 / 100
   \<and> rk4_force solid_scenario 1 =
        ((rk4_iter (1 / 100) 2 0) ^^ 100) (rk4_start solid_scenario)
   \<and> 0 \<le> dt_3 \<and> dt_3 / RK4_MIN_H \<le> real_of_int INT_MAX
   \<and> fdiv dt_3 RK4_MIN_H = 3 \<and> \<lfloor>dt_3 / RK4_MIN_H\<rfloor> = 2 \<and> rk4_N dt_3 = 3
   \<and> rk4_force solid_scenario dt_3 =
        ((rk4_iter (dt_3 / 3) 2 0) ^^ 3) (rk4_start solid_scenario)"
proof -
  have f: "VX (force solid_scenario) / mass solid_scenario = 2"
          "VY (force solid_scenario) / mass solid_scenario = 0"
    by (simp_all add: solid_scenario_def solid_rest_def vect_cset_def VX_def VY_def)
  have 1: "fdiv 1 RK4_MIN_H = 100
      \<and> rk4_N 1 = 100 \<and> rk4_h 1 = 1 / 100
      \<and> rk4_force solid_scenario 1 =
        ((rk4_iter (1 / 100) 2 0) ^^ 100) (rk4_start solid_scenario)"
    using rk4_update_substeps [OF quotient_100 [THEN conjunct1] quotient_100 [THEN conjunct2]
        force_solid_scenario]
      fdiv_1 f
    by simp
  have n3: "nat 3 = (3::nat)" by simp
  have h3: "rk4_h dt_3 = dt_3 / 3" using rk4_N_dt_3 by (simp add: rk4_h_def)
  have 3: "rk4_N dt_3 = 3
      \<and> rk4_force solid_scenario dt_3 =
        ((rk4_iter (dt_3 / 3) 2 0) ^^ 3) (rk4_start solid_scenario)"
    using rk4_update_substeps [OF quotient_dt_3 [THEN conjunct1] quotient_dt_3 [THEN conjunct2]
        force_solid_scenario]
      rk4_N_dt_3 f
    by (simp add: n3 h3)
  show ?thesis
    using 1 3 quotient_100 quotient_dt_3 force_solid_scenario rk4_N_dt_3 by simp
qed

text \<open>
  The claim as stated fails at dt = 0.015: one pass with the step 0.015, where
  max(1, ceil(dt / 0.01)) is 2.
\<close>

theorem rk4_update_substeps_counterexample:
  "(0::real) \<le> 3 / 200 \<and> rk4_N (3 / 200) = 1 \<and> max 1 \<lceil>(3 / 200) / RK4_MIN_H\<rceil> = 2
   \<and> rk4_h (3 / 200) = 3 / 200"
proof -
  have q: "fdiv (3 / 200) RK4_MIN_H = 3 / 2"
    unfolding fdiv_def RK4_MIN_H_alt
    by (subst round_double_ge1 [where j = 0]) (simp_all add: round_even_def Let_def)
  have "3 / 200 > RK4_MIN_H" by (simp add: RK4_MIN_H_alt)
  then have n: "rk4_N (3 / 200) = 1" by (simp add: rk4_N_def q int_of_double_def)
  have "max 1 \<lceil>(3 / 200) / RK4_MIN_H\<rceil> = 2" by (simp add: RK4_MIN_H_alt)
  with n show ?thesis by (simp add: rk4_h_def)
qed

text \<open>
  C8, as amended. The loop is a total function (its termination is proved with the
  measure N - i): from any locals it returns after N - i passes. For every dt \<open>\<ge>\<close> 0
  whose quotient dt / 0.01 is within the range of \<^verbatim>\<open>int\<close>, the update with a force of
  non-zero magnitude commits the locals reached after exactly N = max(1, floor(q))
  passes from the initial values, q the quotient dt / 0.01 rounded to a double, and the
  counter ends at N; N is at least 1, at most max(1, q) and at most
  max(1, ceil(dt / 0.01)). With a force of magnitude 0 the update commits
  position + dt * velocity and makes no pass.
\<close>

theorem rk4_update_passes:
  assumes "0 \<le> dt" and "dt / RK4_MIN_H \<le> real_of_int INT_MAX"
  shows "rk4_N dt = max 1 \<lfloor>fdiv dt RK4_MIN_H\<rfloor>
    \<and> 1 \<le> rk4_N dt
    \<and> rk4_N dt \<le> INT_MAX
    \<and> real_of_int (rk4_N dt) \<le> max 1 (fdiv dt RK4_MIN_H)
    \<and> rk4_N dt \<le> max 1 \<lceil>dt / RK4_MIN_H\<rceil>
    \<and> rk4_loop (rk4_N dt) h ax ay s = ((rk4_iter h ax ay) ^^ nat (rk4_N dt - i s)) s
    \<and> (mod_v (force obj) \<noteq> 0 \<longrightarrow>
          i (rk4_force obj dt) = rk4_N dt
        \<and> rk4_force obj dt =
            ((rk4_iter (rk4_h dt) (VX (force obj) / mass obj) (VY (force obj) / mass obj))
               ^^ nat (rk4_N dt)) (rk4_start obj)
        \<and> rk4_update obj dt =
            (rk4_dir obj dt)
              \<lparr>vel := vect_cset (vel obj) (vx (rk4_force obj dt)) (vy (rk4_force obj dt)),
               pos := vect_cset (pos obj) (px (rk4_force obj dt)) (py (rk4_force obj dt))\<rparr>)
    \<and> (mod_v (force obj) = 0 \<longrightarrow>
          rk4_update obj dt =
            (rk4_dir obj dt)
              \<lparr>pos := vect_cset (pos obj) (x (pos obj) + dt * x (vel obj))
                       (y (pos obj) + dt * y (vel obj))\<rparr>)"
proof -
  have loop: "rk4_loop (rk4_N dt) h ax ay s = ((rk4_iter h ax ay) ^^ nat (rk4_N dt - i s)) s"
    by (rule rk4_loop_funpow)
  have pass: "rk4_force obj dt =
      ((rk4_iter (rk4_h dt) (VX (force obj) / mass obj) (VY (force obj) / mass obj))
         ^^ nat (rk4_N dt)) (rk4_start obj)"
    by (simp add: rk4_force_def Let_def rk4_loop_funpow rk4_start_def)
  have cnt: "i (rk4_force obj dt) = rk4_N dt"
    by (simp add: rk4_force_closed)
  have upd: "mod_v (force obj) \<noteq> 0 \<Longrightarrow> rk4_update obj dt =
      (rk4_dir obj dt)
        \<lparr>vel := vect_cset (vel obj) (vx (rk4_force obj dt)) (vy (rk4_force obj dt)),
         pos := vect_cset (pos obj) (px (rk4_force obj dt)) (py (rk4_force obj dt))\<rparr>"
    by (simp add: rk4_update_def Let_def rk4_dir_frame rk4_force_rk4_dir)
  have free: "mod_v (force obj) = 0 \<Longrightarrow> rk4_update obj dt =
      (rk4_dir obj dt)
        \<lparr>pos := vect_cset (pos obj) (x (pos obj) + dt * x (vel obj))
                 (y (pos obj) + dt * y (vel obj))\<rparr>"
    by (simp add: rk4_update_def Let_def rk4_dir_frame rk4_free_def rk4_start_def VX_def VY_def)
  note rk4_N_floor [OF assms] rk4_N_bounds(1,3,4,5) [OF assms]
  with loop pass cnt upd free show ?thesis by blast
qed

theorem rk4_update_passes_witness:
  "(0::real) \<le> 1 \<and> 1 / RK4_MIN_H \<le> real_of_int INT_MAX
   \<and> mod_v (force solid_scenario) \<noteq> 0
   \<and> rk4_N 1 = 100
   \<and> i (rk4_force solid_scenario 1) = 100
   \<and> max 1 (fdiv 1 RK4_MIN_H) = 100
   \<and> mod_v (force solid_coasting) = 0
   \<and> rk4_update solid_coasting 1 =
       (rk4_dir solid_coasting 1)\<lparr>pos := vect_cset (pos solid_coasting) 4 6\<rparr>"
proof -
  have c: "x (pos solid_coasting) = 1" "y (pos solid_coasting) = 2"
       "x (vel solid_coasting) = 3" "y (vel solid_coasting) = 4"
    by (simp_all add: solid_coasting_def vect_cset_def)
  note a = quotient_100 [THEN conjunct1] quotient_100 [THEN conjunct2]
  have n: "rk4_N 1 = max 1 \<lfloor>fdiv 1 RK4_MIN_H\<rfloor>"
    using rk4_update_passes [OF a] by blast
  have k: "i (rk4_force solid_scenario 1) = rk4_N 1"
    using rk4_update_passes [OF a, of _ _ _ _ solid_scenario] force_solid_scenario by blast
  have u: "rk4_update solid_coasting 1 =
      (rk4_dir solid_coasting 1)
        \<lparr>pos := vect_cset (pos solid_coasting) (x (pos solid_coasting) + 1 * x (vel solid_coasting))
                 (y (pos solid_coasting) + 1 * y (vel solid_coasting))\<rparr>"
    using rk4_update_passes [OF a, of _ _ _ _ solid_coasting] force_solid_coasting by blast
  show ?thesis
    using n k u quotient_100 force_solid_scenario force_solid_coasting
    by (simp add: fdiv_1 c)
qed

text \<open>
  The claim as stated fails at dt = 0.005: with a force the loop makes one pass, more
  than dt / 0.01 = 0.5.
\<close>

theorem rk4_update_passes_counterexample:
  "(0::real) \<le> 1 / 200
   \<and> mod_v (force solid_scenario) \<noteq> 0
   \<and> rk4_N (1 / 200) = 1
   \<and> i (rk4_force solid_scenario (1 / 200)) = 1
   \<and> rk4_force solid_scenario (1 / 200) =
       rk4_iter (1 / 200) (VX (force solid_scenario) / mass solid_scenario)
         (VY (force solid_scenario) / mass solid_scenario) (rk4_start solid_scenario)
   \<and> \<not> real_of_int (i (rk4_force solid_scenario (1 / 200))) \<le> (1 / 200) / RK4_MIN_H"
proof -
  have n: "rk4_N (1 / 200) = 1" "rk4_h (1 / 200) = 1 / 200"
    using rk4_N_small [of "1 / 200"] by simp_all
  have "rk4_force solid_scenario (1 / 200) =
       rk4_iter (1 / 200) (VX (force solid_scenario) / mass solid_scenario)
         (VY (force solid_scenario) / mass solid_scenario) (rk4_start solid_scenario)"
    by (simp add: rk4_force_def Let_def rk4_loop_funpow n rk4_start_def)
  then show ?thesis
    using force_solid_scenario n by (simp add: i_rk4_iter rk4_start_def RK4_MIN_H_alt)
qed

section \<open>The two blends in binary64\<close>















section \<open>Representation consistency\<close>

lemma vect_cset_consistent: "vect_consistent (vect_cset v a b)"
  by (simp add: vect_consistent_def vect_cset_def MOD_def ANGLE_def power2_eq_square)

lemma vel_solid_polar: "vel solid_polar = \<lparr>x = 0, y = - 1, mod_v = 1, angle = 3 / 2 * pi\<rparr>"
  using cos_3over2_pi sin_3over2_pi
  by (simp add: solid_polar_def vect_pset_def vect_zero_def Let_def)

text \<open>
  C7, as amended. After the update the position satisfies magnitude = sqrt(x^2 + y^2)
  and angle = atan2(y, x), for every Solid and every dt: it is committed through
  \<^verbatim>\<open>vect_cset\<close> in both branches. The velocity is committed through \<^verbatim>\<open>vect_cset\<close>
  only when the force has a non-zero magnitude, and satisfies the invariant then; when
  the magnitude is 0 the velocity is left as it was.
\<close>

theorem rk4_update_consistent:
  "vect_consistent (pos (rk4_update obj dt))
   \<and> (mod_v (force obj) \<noteq> 0 \<longrightarrow> vect_consistent (vel (rk4_update obj dt)))
   \<and> (mod_v (force obj) = 0 \<longrightarrow> vel (rk4_update obj dt) = vel obj)"
proof (cases "mod_v (force obj) = 0")
  case True
  then show ?thesis by (simp add: rk4_update_free vect_cset_consistent)
next
  case False
  then show ?thesis by (simp add: rk4_update_force vect_cset_consistent)
qed

theorem rk4_update_consistent_witness:
  "mod_v (force solid_scenario) \<noteq> 0
   \<and> vect_consistent (vel (rk4_update solid_scenario 1))
   \<and> vect_consistent (pos (rk4_update solid_scenario 1))
   \<and> mod_v (force solid_coasting) = 0
   \<and> vel (rk4_update solid_coasting 1) = vel solid_coasting"
  using rk4_update_consistent [of solid_scenario 1] rk4_update_consistent [of solid_coasting 1]
    force_solid_scenario force_solid_coasting
  by simp

text \<open>
  The claim as stated fails for the velocity: a velocity set through \<^verbatim>\<open>vect_pset\<close>
  with magnitude 1 and angle \<open>3\<pi>/2\<close> has x = 0, y = -1 and the stored angle \<open>3\<pi>/2\<close>,
  where atan2(-1, 0) is \<open>-\<pi>/2\<close>; without a force the update leaves it so.
\<close>

theorem rk4_update_consistent_counterexample:
  "mod_v (force solid_polar) = 0
   \<and> vel (rk4_update solid_polar 1) = vect_pset vect_zero 1 (3 / 2 * pi)
   \<and> \<not> vect_consistent (vel (rk4_update solid_polar 1))"
proof -
  have f: "mod_v (force solid_polar) = 0"
    by (simp add: solid_polar_def solid_rest_def vect_zero_def)
  have v: "vel (rk4_update solid_polar 1) = vel solid_polar"
    using f by (simp add: rk4_update_free)
  have "\<not> vect_consistent (vel solid_polar)"
    by (simp add: vel_solid_polar vect_consistent_def atan2_def)
  with f v show ?thesis by (simp add: solid_polar_def)
qed

section \<open>Initialisation\<close>

lemma vectcpy_eq: "vectcpy dest src = src"
  by (simp add: vectcpy_def)

lemma vectnull_eq: "vectnull v = vect_zero"
  by (simp add: vectnull_def vect_zero_def)

text \<open>
  C10, as amended. \<^verbatim>\<open>solid_init\<close> (and so \<^verbatim>\<open>solid_create\<close>, when the allocation
  succeeds) assigns mass, heading (0), all four fields of velocity and of position (the
  argument's, or zero for a null argument), the update operation, and of the force only
  the magnitude (0). It leaves the force's x, y and angle as the storage held them, so
  the force satisfies the consistency invariant only if the storage happened to hold 0
  in all three; and it leaves the angular velocity \<^verbatim>\<open>dir_vel\<close> unassigned as well.
\<close>

theorem solid_init_fields:
  "mass (solid_init dest m v p) = m
   \<and> dir (solid_init dest m v p) = 0
   \<and> vel (solid_init dest m v p) = (case v of None \<Rightarrow> vect_zero | Some src \<Rightarrow> src)
   \<and> pos (solid_init dest m v p) = (case p of None \<Rightarrow> vect_zero | Some src \<Rightarrow> src)
   \<and> update (solid_init dest m v p) = Rk4_update
   \<and> mod_v (force (solid_init dest m v p)) = 0
   \<and> x (force (solid_init dest m v p)) = x (force dest)
   \<and> y (force (solid_init dest m v p)) = y (force dest)
   \<and> angle (force (solid_init dest m v p)) = angle (force dest)
   \<and> dir_vel (solid_init dest m v p) = dir_vel dest
   \<and> vect_consistent (force (solid_init dest m v p)) =
       (x (force dest) = 0 \<and> y (force dest) = 0 \<and> angle (force dest) = 0)
   \<and> solid_create (Some dest) m v p = Inr (solid_init dest m v p)"
  by (cases v; cases p)
     (auto simp: solid_init_def solid_create_def Let_def vectcpy_eq vectnull_eq
        vect_consistent_def atan2_def)

text \<open>
  The claim as stated fails for the angular velocity, a field of Solid that
  \<^verbatim>\<open>rk4_update\<close> reads: after initialisation it holds whatever the storage held.
\<close>

theorem solid_init_fields_counterexample:
  "dir_vel (solid_init storage_raw 2 None None) = 7
   \<and> dir_vel (solid_init (storage_raw\<lparr>dir_vel := 8\<rparr>) 2 None None) = 8
   \<and> solid_create (Some storage_raw) 2 None None = Inr (solid_init storage_raw 2 None None)"
  by (simp add: solid_init_def solid_create_def Let_def storage_raw_def)

section \<open>Constant force\<close>

text \<open>
  C1, at a failing input. Mass 1, at rest at the origin, force (20000, 0), dt = 0.01:
  the loop makes one pass with h = 0.01, whose position increment is a multiple of the
  velocity 0, so the update leaves the position at x = 0. The closed form
  p0 + v0 * dt + (1/2) * (F/m) * dt^2 is 1.
\<close>

theorem rk4_update_kick:
  "mass solid_kick = 1 \<and> mod_v (force solid_kick) \<noteq> 0
   \<and> rk4_N (1 / 100) = 1
   \<and> x (pos (rk4_update solid_kick (1 / 100))) = 0
   \<and> x (pos solid_kick) + x (vel solid_kick) * (1 / 100)
       + 1 / 2 * (x (force solid_kick) / mass solid_kick) * (1 / 100)\<^sup>2 = 1"
proof -
  have c: "mod_v (force solid_kick) \<noteq> 0"
    by (simp add: solid_kick_def vect_cset_def MOD_def)
  have s: "x (force solid_kick) = 20000" "y (force solid_kick) = 0"
    "mass solid_kick = 1" "x (vel solid_kick) = 0" "y (vel solid_kick) = 0"
    "x (pos solid_kick) = 0" "y (pos solid_kick) = 0"
    by (simp_all add: solid_kick_def solid_rest_def vect_cset_def vect_zero_def)
  have n: "rk4_N (1 / 100) = 1" "rk4_h (1 / 100) = 1 / 100"
    using rk4_N_small [of "1 / 100"] by simp_all
  have "px (rk4_force solid_kick (1 / 100)) = 0"
    by (simp add: rk4_force_closed n s)
  with c n show ?thesis
    by (simp add: rk4_update_force vect_cset_def s power2_eq_square)
qed

text \<open>
  C6, at the spec's example scenario. Mass 2, at rest at the origin, force (4, 0),
  dt = 1: the acceleration is (2, 0) and the final velocity is (2, 0); the final position
  is (1.004932665, 0), where the closed form gives (1, 0).
\<close>

theorem rk4_update_scenario:
  "VX (force solid_scenario) / mass solid_scenario = 2
   \<and> VY (force solid_scenario) / mass solid_scenario = 0
   \<and> rk4_N 1 = 100
   \<and> x (pos (rk4_update solid_scenario 1)) = 1004932665 / 1000000000
   \<and> y (pos (rk4_update solid_scenario 1)) = 0
   \<and> x (vel (rk4_update solid_scenario 1)) = 2
   \<and> y (vel (rk4_update solid_scenario 1)) = 0"
proof -
  have s: "x (force solid_scenario) = 4" "y (force solid_scenario) = 0"
    "mass solid_scenario = 2" "x (vel solid_scenario) = 0" "y (vel solid_scenario) = 0"
    "x (pos solid_scenario) = 0" "y (pos solid_scenario) = 0"
    by (simp_all add: solid_scenario_def solid_rest_def vect_cset_def vect_zero_def)
  have g: "rk4_gain (1 / 100) = 10150835 / 1000000000"
    by (simp add: rk4_gain_def power2_eq_square power3_eq_cube)
  have "rk4_force solid_scenario 1 =
          \<lparr>i = 100, px = 1004932665 / 1000000000, py = 0, vx = 2, vy = 0\<rparr>"
    by (simp add: rk4_force_closed rk4_N_1 s g)
  with force_solid_scenario show ?thesis
    by (simp add: rk4_update_force vect_cset_def VX_def VY_def s rk4_N_1)
qed

end
